theory Spec2Isabelle
  imports Main "HOL-Library.Sublist" "HOL-Library.Word"
begin

section \<open>Strings\<close>

text \<open>
  The TypeScript sources work on JavaScript strings. They are modelled as \<open>string\<close>, a list
  of 8-bit characters read as the code points U+0000 to U+00FF. The three string built-ins
  the sources call (\<open>toLowerCase\<close>, \<open>trim\<close> and a case-insensitive regular expression
  test) are written out for that range.
\<close>

definition toLowerCase_char :: "char \<Rightarrow> char" where
  \<comment> \<open>A-Z and the capital letters U+00C0 to U+00DE (the multiplication sign U+00D7 is not a
      letter) map to the code point 32 above; every other character is unchanged.\<close>
  "toLowerCase_char c =
     (let n = (of_char c :: nat)
      in if (65 \<le> n \<and> n \<le> 90) \<or> (192 \<le> n \<and> n \<le> 222 \<and> n \<noteq> 215)
         then char_of (n + 32) else c)"

definition toLowerCase :: "string \<Rightarrow> string" where
  "toLowerCase s = map toLowerCase_char s"

definition is_white_space :: "char \<Rightarrow> bool" where
  \<comment> \<open>The white space and line terminators that \<open>trim\<close> strips, below U+0100: TAB, LF,
      VT, FF, CR, SP and NBSP.\<close>
  "is_white_space c \<longleftrightarrow> (of_char c :: nat) \<in> {9, 10, 11, 12, 13, 32, 160}"

definition trim :: "string \<Rightarrow> string" where
  "trim s = rev (dropWhile is_white_space (rev (dropWhile is_white_space s)))"

definition canonicalize :: "char \<Rightarrow> char" where
  \<comment> \<open>The canonical form of a character under the \<open>i\<close> flag (without \<open>u\<close>): its upper
      case, when that is one character and does not take a non-ASCII character into ASCII.
      U+00B5 and U+00FF have their upper case above U+00FF, where no other character of the
      range is mapped, and U+00DF has a two-letter upper case, so the three stay as they are.\<close>
  "canonicalize c =
     (let n = (of_char c :: nat)
      in if (97 \<le> n \<and> n \<le> 122) \<or> (224 \<le> n \<and> n \<le> 254 \<and> n \<noteq> 247)
         then char_of (n - 32) else c)"

datatype regex =
    Empty
  | Lit char
  | Cat regex regex
  | Alt regex regex
  | Opt regex

fun rmatch :: "regex \<Rightarrow> string \<Rightarrow> string list" where
  \<comment> \<open>Every way the pattern matches at the start of the text, each given by the rest of the
      text after the match; characters are compared in canonical form.\<close>
  "rmatch Empty s = [s]"
| "rmatch (Lit c) s =
     (case s of [] \<Rightarrow> [] | x # xs \<Rightarrow> if canonicalize x = canonicalize c then [xs] else [])"
| "rmatch (Cat a b) s = concat (map (rmatch b) (rmatch a s))"
| "rmatch (Alt a b) s = rmatch a s @ rmatch b s"
| "rmatch (Opt a) s = rmatch a s @ [s]"

definition test_anchored :: "regex \<Rightarrow> string \<Rightarrow> bool" where
  \<comment> \<open>\<open>/^r$/i.test(s)\<close>: without the \<open>m\<close> flag the anchors are the two ends of the text.\<close>
  "test_anchored r s \<longleftrightarrow> [] \<in> set (rmatch r s)"

definition word :: "string \<Rightarrow> regex" where
  "word w = foldr (\<lambda>c r. Cat (Lit c) r) w Empty"

definition greetingPattern :: regex where
  \<comment> \<open>\<open>/^(hello|hi|hey|good morning|good afternoon|good evening)\.?$/i\<close>\<close>
  "greetingPattern =
     Cat (Alt (word ''hello'') (Alt (word ''hi'') (Alt (word ''hey'')
           (Alt (word ''good morning'') (Alt (word ''good afternoon'') (word ''good evening''))))))
         (Opt (Lit (CHR ''.'')))"

text \<open>
  The pattern in the words of the specification: up to case, the text is one of the six
  greetings, with or without a full stop after it.
\<close>

definition greetings :: "string list" where
  "greetings = [''hello'', ''hi'', ''hey'', ''good morning'', ''good afternoon'', ''good evening'']"

definition same_letters :: "string \<Rightarrow> string \<Rightarrow> bool" where
  "same_letters s g \<longleftrightarrow> map canonicalize s = map canonicalize g"

definition is_greeting :: "string \<Rightarrow> bool" where
  "is_greeting s \<longleftrightarrow> (\<exists>g \<in> set greetings. same_letters s g \<or> same_letters s (g @ ''.''))"

section \<open>Order management skills (agent/skills/order.ts)\<close>

text \<open>
  A line of an order is \<open>{ item: string; quantity: number; size?: string }\<close>. Quantities
  are modelled as integers; the optional size is an \<open>option\<close>. The module-level
  \<open>orderState\<close> is a \<open>Map\<close> from customer id to an object with one field \<open>items\<close>;
  the tools mutate it, so each tool takes the map and returns its message with the new map.
\<close>

record order_item =
  item :: string
  quantity :: int
  item_size :: "string option"

record order =
  items :: "order_item list"

type_synonym orderState = "string \<rightharpoonup> order"

fun findIndex :: "('a \<Rightarrow> bool) \<Rightarrow> 'a list \<Rightarrow> int" where
  \<comment> \<open>\<open>Array.prototype.findIndex\<close>: the index of the first element that satisfies the
      predicate, or -1.\<close>
  "findIndex P [] = -1"
| "findIndex P (x # xs) =
     (if P x then 0 else (let r = findIndex P xs in if r \<ge> 0 then r + 1 else -1))"

definition splice1 :: "nat \<Rightarrow> 'a list \<Rightarrow> 'a list" where
  \<comment> \<open>\<open>xs.splice(i, 1)\<close>: what is left of the array after the element at \<open>i\<close> is removed.\<close>
  "splice1 i xs = take i xs @ drop (Suc i) xs"

fun digits_of :: "nat \<Rightarrow> string" where
  "digits_of n =
     (if n < 10 then [char_of (48 + n)] else digits_of (n div 10) @ [char_of (48 + n mod 10)])"

declare digits_of.simps [simp del]

definition show_number :: "int \<Rightarrow> string" where
  \<comment> \<open>A number inside a template literal, for the integers.\<close>
  "show_number k = (if k < 0 then CHR ''-'' # digits_of (nat (- k)) else digits_of (nat k))"

definition size_prefix :: "string option \<Rightarrow> string" where
  \<comment> \<open>\<open>size ? size + " " : ""\<close>: undefined and the empty string are falsy.\<close>
  "size_prefix sz = (case sz of None \<Rightarrow> [] | Some s \<Rightarrow> if s = [] then [] else s @ '' '')"

definition plural :: "int \<Rightarrow> string" where
  "plural k = (if k > 1 then ''s'' else [])"

definition customer_key :: "string option \<Rightarrow> string" where
  \<comment> \<open>The parameter default \<open>customerId = "default"\<close>.\<close>
  "customer_key customerId = (case customerId of None \<Rightarrow> ''default'' | Some c \<Rightarrow> c)"


definition same_item :: "string \<Rightarrow> order_item \<Rightarrow> bool" where
  \<comment> \<open>\<open>i => i.item.toLowerCase() === item.toLowerCase()\<close>\<close>
  "same_item it i \<longleftrightarrow> toLowerCase (item i) = toLowerCase it"


definition removeFromOrder :: "string \<Rightarrow> string option \<Rightarrow> orderState \<Rightarrow> string \<times> orderState" where
  "removeFromOrder it customerId st =
     (let cid = customer_key customerId
      in case st cid of
           None \<Rightarrow> (''Your order is already empty.'', st)
         | Some ord \<Rightarrow>
             if length (items ord) = 0 then (''Your order is already empty.'', st)
             else
               (let itemIndex = findIndex (same_item it) (items ord)
                in if itemIndex \<ge> 0 then
                     (let removedItem = items ord ! nat itemIndex
                      in (''Removed '' @ show_number (quantity removedItem) @ '' ''
                            @ size_prefix (item_size removedItem) @ item removedItem
                            @ plural (quantity removedItem) @ '' from your order.'',
                          st(cid \<mapsto> ord\<lparr>items := splice1 (nat itemIndex) (items ord)\<rparr>)))
                   else
                     (''I couldn'' @ [CHR 0x27] @ ''t find '' @ [CHR 0x22] @ it @ [CHR 0x22]
                        @ '' in your order. Would you like me to tell you what'' @ [CHR 0x27]
                        @ ''s currently in your order?'',
                      st)))"

definition order_lines :: "orderState \<Rightarrow> string \<Rightarrow> order_item list" where
  \<comment> \<open>The lines of a customer's order; a customer without an entry has none.\<close>
  "order_lines st cid = (case st cid of None \<Rightarrow> [] | Some ord \<Rightarrow> items ord)"

definition example_orders :: orderState where
  \<comment> \<open>A store with one customer and three lines, two of them the same sandwich in two sizes.\<close>
  "example_orders =
     [''default'' \<mapsto> \<lparr>items = [\<lparr>item = ''chips'', quantity = 1, item_size = None\<rparr>,
                                 \<lparr>item = ''BLT'', quantity = 1, item_size = Some ''large''\<rparr>,
                                 \<lparr>item = ''blt'', quantity = 4, item_size = Some ''small''\<rparr>]\<rparr>]"

section \<open>Events and the agent collaborator (index.ts)\<close>

text \<open>
  Modelled from the spec: the type \<open>VoiceAgentEvent\<close> is declared in \<open>types.ts\<close>, which is
  not among the sources. The variants are the seven of the specification's event table, named
  by the type tags \<open>index.ts\<close> writes and reads, with the fields it sets; every variant
  ends with its timestamp \<open>ts\<close>. A JSON value (tool arguments, structured message content)
  is kept as its serialised text.
\<close>

type_synonym json = string

type_synonym byte = "8 word"

datatype VoiceAgentEvent =
    Stt_chunk string nat
  | Stt_output string nat
  | Agent_chunk string nat
  | Agent_end nat
  | Tool_call string string json nat
  | Tool_result string string string nat
  | Tts_chunk "byte list" nat


text \<open>
  What the agent collaborator streams: with \<open>streamMode: "messages"\<close> each item is a
  message. \<open>AIMessage\<close> carries its text and, optionally, a list of tool calls, each
  with an optional id; \<open>ToolMessage\<close> carries an optional call id, an optional name and
  its content, a string or a structured value; any other message is neither.
\<close>

datatype ToolCall = ToolCall (tc_id: "string option") (tc_name: string) (tc_args: json)

datatype MessageContent = Text string | Structured json

datatype Message =
    AIMessage string "ToolCall list option"
  | ToolMessage "string option" "string option" MessageContent
  | OtherMessage

text \<open>
  A call \<open>agent.stream(input, config)\<close> either is rejected, or gives a stream that yields
  finitely many messages and then completes or raises.
\<close>

datatype StreamEnd = Completed | Raised

datatype AgentReply = Rejected | Streamed "Message list" StreamEnd

record AgentRequest =
  messages :: "string list"
  streamMode :: string
  thread_id :: "string option"

text \<open>
  The surroundings of a session: the clock behind \<open>Date.now()\<close>, the generator behind
  \<open>uuidv4()\<close> and the agent, each answering its k-th call. The state threaded through
  the stage counts the calls made and logs the requests sent to the agent.
\<close>

record env =
  now :: "nat \<Rightarrow> nat"
  uuid :: "nat \<Rightarrow> string"
  agent_stream :: "nat \<Rightarrow> AgentRequest \<Rightarrow> AgentReply"

record world =
  clock_reads :: nat
  uuid_reads :: nat
  agent_calls :: "AgentRequest list"

definition Date_now :: "env \<Rightarrow> world \<Rightarrow> nat \<times> world" where
  "Date_now e w = (now e (clock_reads w), w\<lparr>clock_reads := Suc (clock_reads w)\<rparr>)"

definition uuidv4 :: "env \<Rightarrow> world \<Rightarrow> string \<times> world" where
  "uuidv4 e w = (uuid e (uuid_reads w), w\<lparr>uuid_reads := Suc (uuid_reads w)\<rparr>)"

section \<open>The agent stage (agentStream in index.ts)\<close>

text \<open>
  The stage is a generator; it is modelled by the list of events it yields for the list of
  events it receives, with the state of its surroundings passed along. The \<open>try\<close> around
  the call of the agent and the loop over its stream has one \<open>catch\<close>, which yields
  \<open>agent_end\<close> as the normal end does. What the stage writes to the console is left out.
\<close>

definition GREETING :: string where
  "GREETING = ''Hi! Welcome to our sandwich shop. What size sandwich would you like? We have small, medium, or large.''"

fun tool_call_events :: "env \<Rightarrow> world \<Rightarrow> ToolCall list \<Rightarrow> VoiceAgentEvent list \<times> world" where
  \<comment> \<open>\<open>for (const toolCall of message.tool_calls)\<close>, with \<open>id: toolCall.id ?? uuidv4()\<close>\<close>
  "tool_call_events e w [] = ([], w)"
| "tool_call_events e w (tc # tcs) =
     (let (i, w1) = (case tc_id tc of Some i \<Rightarrow> (i, w) | None \<Rightarrow> uuidv4 e w);
          (t, w2) = Date_now e w1;
          (evs, w3) = tool_call_events e w2 tcs
      in (Tool_call i (tc_name tc) (tc_args tc) t # evs, w3))"

fun message_events :: "env \<Rightarrow> world \<Rightarrow> Message \<Rightarrow> VoiceAgentEvent list \<times> world" where
  "message_events e w (AIMessage txt tcs) =
     (let (chunk, w1) = (if txt \<noteq> [] then (let (t, w') = Date_now e w in ([Agent_chunk txt t], w'))
                         else ([], w));
          (calls, w2) = (case tcs of None \<Rightarrow> ([], w1) | Some l \<Rightarrow> tool_call_events e w1 l)
      in (chunk @ calls, w2))"
| "message_events e w (ToolMessage call_id nm c) =
     (let (t, w1) = Date_now e w
      in ([Tool_result (case call_id of None \<Rightarrow> [] | Some i \<Rightarrow> i)
                       (case nm of None \<Rightarrow> ''unknown'' | Some n \<Rightarrow> n)
                       (case c of Text s \<Rightarrow> s | Structured j \<Rightarrow> j) t], w1))"
| "message_events e w OtherMessage = ([], w)"

fun stream_events :: "env \<Rightarrow> world \<Rightarrow> Message list \<Rightarrow> VoiceAgentEvent list \<times> world" where
  \<comment> \<open>\<open>for await (const [message] of stream)\<close>\<close>
  "stream_events e w [] = ([], w)"
| "stream_events e w (m # ms) =
     (let (evs1, w1) = message_events e w m;
          (evs2, w2) = stream_events e w1 ms
      in (evs1 @ evs2, w2))"

definition turn :: "env \<Rightarrow> world \<Rightarrow> string \<Rightarrow> VoiceAgentEvent list \<times> world" where
  \<comment> \<open>The body of \<open>if (event.type === "stt_output")\<close>: what one final transcript makes
      the stage emit after the transcript itself. The request to the agent has the
      transcript as its one human message and \<open>{ streamMode: "messages" }\<close> as its
      configuration.\<close>
  "turn e w transcript =
     (if test_anchored greetingPattern (trim transcript) then
        (let (t1, w1) = Date_now e w;
             (t2, w2) = Date_now e w1
         in ([Agent_chunk GREETING t1, Agent_end t2], w2))
      else
        (let req = \<lparr>messages = [transcript], streamMode = ''messages'', thread_id = None\<rparr>;
             w1 = w\<lparr>agent_calls := agent_calls w @ [req]\<rparr>
         in case agent_stream e (length (agent_calls w)) req of
              Rejected \<Rightarrow>
                (let (t, w2) = Date_now e w1 in ([Agent_end t], w2))
            | Streamed msgs Completed \<Rightarrow>
                (let (evs, w2) = stream_events e w1 msgs;
                     (t, w3) = Date_now e w2
                 in (evs @ [Agent_end t], w3))
            | Streamed msgs Raised \<Rightarrow>
                (let (evs, w2) = stream_events e w1 msgs;
                     (t, w3) = Date_now e w2
                 in (evs @ [Agent_end t], w3))))"

fun agent_loop :: "env \<Rightarrow> world \<Rightarrow> VoiceAgentEvent list \<Rightarrow> VoiceAgentEvent list \<times> world" where
  \<comment> \<open>\<open>for await (const event of eventStream) { yield event; ... }\<close>\<close>
  "agent_loop e w [] = ([], w)"
| "agent_loop e w (event # events) =
     (let (generated, w1) = (case event of Stt_output transcript _ \<Rightarrow> turn e w transcript
                                         | _ \<Rightarrow> ([], w));
          (rest, w2) = agent_loop e w1 events
      in (event # generated @ rest, w2))"

definition agentStream :: "env \<Rightarrow> world \<Rightarrow> VoiceAgentEvent list \<Rightarrow> VoiceAgentEvent list \<times> world" where
  \<comment> \<open>The stage on the events it receives: \<open>threadId = uuidv4()\<close> first, then the loop.\<close>
  "agentStream e w events = (let (threadId, w0) = uuidv4 e w in agent_loop e w0 events)"

text \<open>
  Pairing of tool results with tool calls in a sequence of events: each \<open>tool_result\<close>
  carries the id of exactly one \<open>tool_call\<close> that stands before it. The first argument
  lists the ids of the calls met so far. The same for the messages of the agent's stream,
  where every tool call and every tool message must carry its id.
\<close>

fun paired_from :: "string list \<Rightarrow> VoiceAgentEvent list \<Rightarrow> bool" where
  "paired_from seen [] = True"
| "paired_from seen (Tool_call i _ _ _ # evs) = paired_from (seen @ [i]) evs"
| "paired_from seen (Tool_result c _ _ _ # evs) = (count_list seen c = 1 \<and> paired_from seen evs)"
| "paired_from seen (_ # evs) = paired_from seen evs"

definition results_paired :: "VoiceAgentEvent list \<Rightarrow> bool" where
  "results_paired evs = paired_from [] evs"

fun stream_paired_from :: "string list \<Rightarrow> Message list \<Rightarrow> bool" where
  "stream_paired_from seen [] = True"
| "stream_paired_from seen (AIMessage _ None # ms) = stream_paired_from seen ms"
| "stream_paired_from seen (AIMessage _ (Some tcs) # ms) =
     (list_all (\<lambda>tc. tc_id tc \<noteq> None) tcs
      \<and> stream_paired_from (seen @ map (\<lambda>tc. the (tc_id tc)) tcs) ms)"
| "stream_paired_from seen (ToolMessage None _ _ # ms) = False"
| "stream_paired_from seen (ToolMessage (Some c) _ _ # ms) =
     (count_list seen c = 1 \<and> stream_paired_from seen ms)"
| "stream_paired_from seen (OtherMessage # ms) = stream_paired_from seen ms"

fun reply_paired :: "AgentReply \<Rightarrow> bool" where
  "reply_paired Rejected = True"
| "reply_paired (Streamed ms _) = stream_paired_from [] ms"

section \<open>The event queue (writableIterator in utils.ts)\<close>

text \<open>
  Modelled from the spec: \<open>writableIterator\<close> is defined in \<open>utils.ts\<close>, which is not among
  the sources. By section 4.1 of the specification it is an unbounded FIFO: \<open>push\<close> enqueues
  an item, \<open>cancel\<close> marks that no further item will arrive, and the one consumer takes the
  items in arrival order and sees the end of the stream once the queue is cancelled and
  drained.
\<close>

record 'a writableIterator =
  queued :: "'a list"
  cancelled :: bool

definition push :: "'a writableIterator \<Rightarrow> 'a \<Rightarrow> 'a writableIterator" where
  "push q x = q\<lparr>queued := queued q @ [x]\<rparr>"

definition cancel :: "'a writableIterator \<Rightarrow> 'a writableIterator" where
  "cancel q = q\<lparr>cancelled := True\<rparr>"

section \<open>The ingress adapter (onMessage in index.ts)\<close>

text \<open>
  The data of a frame as the handler can meet it: a Node \<open>Buffer\<close>, an \<open>ArrayBuffer\<close>,
  or something else (the string of a text frame, a \<open>Blob\<close>).
\<close>

datatype FrameData =
    BufferData "byte list"
  | ArrayBufferData "byte list"
  | StringData string
  | BlobData "byte list"

fun recognized :: "FrameData \<Rightarrow> bool" where
  \<comment> \<open>\<open>Buffer.isBuffer(data) || data instanceof ArrayBuffer\<close>\<close>
  "recognized (BufferData _) = True"
| "recognized (ArrayBufferData _) = True"
| "recognized _ = False"

fun frame_bytes :: "FrameData \<Rightarrow> byte list" where
  "frame_bytes (BufferData b) = b"
| "frame_bytes (ArrayBufferData b) = b"
| "frame_bytes (StringData s) = map of_char s"
| "frame_bytes (BlobData b) = b"

fun onMessage :: "byte list writableIterator \<Rightarrow> FrameData \<Rightarrow> byte list writableIterator" where
  "onMessage inputStream (BufferData b) = push inputStream b"
| "onMessage inputStream (ArrayBufferData b) = push inputStream b"
| "onMessage inputStream _ = inputStream"

section \<open>The synthesis stage (ttsStream in index.ts)\<close>

text \<open>
  The synthesizer collaborator (\<open>CartesiaTTS\<close>, not among the sources) is used through
  \<open>sendText\<close>, \<open>close\<close> and \<open>receiveEvents\<close>. Its k-th \<open>sendText\<close> resolves or
  rejects, and \<open>receiveEvents\<close> yields the audio events. The producer task keeps the
  per-turn buffer; the model also records what the task pushed to the passthrough queue
  and the texts it passed to \<open>sendText\<close>. This section is the loop inside the task's
  \<open>try\<close>, on the events the task receives; the \<open>finally\<close> with \<open>tts.close()\<close>
  belongs to the session below.
\<close>

record synthesizer =
  sendText_resolves :: "nat \<Rightarrow> string \<Rightarrow> bool"
  receiveEvents :: "VoiceAgentEvent list"

record producer_state =
  buffer :: "string list"
  pushed :: "VoiceAgentEvent list"
  sent :: "string list"

definition producer_init :: producer_state where
  "producer_init = \<lparr>buffer = [], pushed = [], sent = []\<rparr>"

definition producer_body ::
  "synthesizer \<Rightarrow> producer_state \<Rightarrow> VoiceAgentEvent \<Rightarrow> producer_state \<times> bool" where
  \<comment> \<open>One round of \<open>for await (const event of eventStream)\<close>; the flag tells that
      \<open>await tts.sendText(text)\<close> rejected, which leaves the loop.\<close>
  "producer_body s p event =
     (let p1 = p\<lparr>pushed := pushed p @ [event]\<rparr>;
          p2 = (case event of Agent_chunk txt _ \<Rightarrow> p1\<lparr>buffer := buffer p1 @ [txt]\<rparr> | _ \<Rightarrow> p1)
      in case event of
           Agent_end _ \<Rightarrow>
             (let text = concat (buffer p2);
                  p3 = p2\<lparr>sent := sent p2 @ [text]\<rparr>
              in if sendText_resolves s (length (sent p2)) text
                 then (p3\<lparr>buffer := []\<rparr>, False) else (p3, True))
         | _ \<Rightarrow> (p2, False))"







fun call_ids :: "VoiceAgentEvent list \<Rightarrow> string list" where
  \<comment> \<open>The ids of the \<open>tool_call\<close> events of a sequence, in order.\<close>
  "call_ids [] = []"
| "call_ids (Tool_call i _ _ _ # evs) = i # call_ids evs"
| "call_ids (_ # evs) = call_ids evs"

section \<open>The sibling stage of the web package (transforms/AgentTransform.ts)\<close>

definition AgentTransform_request :: "string \<Rightarrow> string \<Rightarrow> AgentRequest" where
  \<comment> \<open>The request \<open>AgentTransform\<close> sends for a text: the same input, with
      \<open>configurable: { thread_id: threadId }\<close> in the configuration.\<close>
  "AgentTransform_request threadId txt =
     \<lparr>messages = [txt], streamMode = ''messages'', thread_id = Some threadId\<rparr>"

section \<open>Example surroundings\<close>

definition example_world :: world where
  "example_world = \<lparr>clock_reads = 0, uuid_reads = 0, agent_calls = []\<rparr>"

definition later_world :: world where
  \<comment> \<open>The surroundings after one earlier call of the agent.\<close>
  "later_world =
     \<lparr>clock_reads = 0, uuid_reads = 0,
      agent_calls = [\<lparr>messages = [''one blt''], streamMode = ''messages'', thread_id = None\<rparr>]\<rparr>"

definition menu_stream_with_ids :: "Message list" where
  "menu_stream_with_ids =
     [AIMessage [] (Some [ToolCall (Some ''call_1'') ''get_menu_info'' ''{}'']),
      ToolMessage (Some ''call_1'') (Some ''get_menu_info'') (Text ''Our specialty sandwiches''),
      AIMessage ''We have the Classic BLT.'' None]"

definition menu_stream_without_ids :: "Message list" where
  "menu_stream_without_ids =
     [AIMessage [] (Some [ToolCall None ''get_menu_info'' ''{}'']),
      ToolMessage None (Some ''get_menu_info'') (Text ''Our specialty sandwiches''),
      AIMessage ''We have the Classic BLT.'' None]"

definition menu_stream_result_without_id :: "Message list" where
  "menu_stream_result_without_id =
     [AIMessage [] (Some [ToolCall (Some ''call_1'') ''get_menu_info'' ''{}'']),
      ToolMessage None (Some ''get_menu_info'') (Text ''Our specialty sandwiches'')]"

definition example_env :: env where
  \<comment> \<open>An agent whose first stream raises after one fragment and whose later streams carry
      a tool call and its result, ids supplied.\<close>
  "example_env =
     \<lparr>now = (\<lambda>k. 1000 + k),
      uuid = (\<lambda>k. ''uuid-'' @ digits_of k),
      agent_stream = (\<lambda>k req. if k = 0 then Streamed [AIMessage ''Let me'' None] Raised
                               else Streamed menu_stream_with_ids Completed)\<rparr>"

definition forgetful_env :: env where
  \<comment> \<open>An agent that omits the ids: on both messages in its first stream, on the tool message
      only in the later ones.\<close>
  "forgetful_env =
     \<lparr>now = (\<lambda>k. 1000 + k),
      uuid = (\<lambda>k. ''uuid-'' @ digits_of k),
      agent_stream = (\<lambda>k req. if k = 0 then Streamed menu_stream_without_ids Completed
                               else Streamed menu_stream_result_without_id Completed)\<rparr>"

definition example_synthesizer :: synthesizer where
  "example_synthesizer =
     \<lparr>sendText_resolves = (\<lambda>k txt. True), receiveEvents = [Tts_chunk [1, 2] 50]\<rparr>"



section \<open>The session (the websocket handler in index.ts)\<close>

text \<open>
  One session is the input channel, the three generators chained on it, the tasks the
  transcription and synthesis stages start with \<open>iife\<close>, and the flush task that sends
  the pipeline's events to the socket. All of them run on one thread and give way only at
  an \<open>await\<close>, so the session is modelled as a state and one step per actor: the step
  an actor takes when it is resumed, or \<open>None\<close> when it is waiting. A schedule is a list
  of actors. The client's frames and its closing of the socket are steps too.

  A task started with \<open>iife\<close> is running or finished. A stage's generator is inside its
  \<open>yield* passthrough\<close> (or, for the agent stage, its loop), inside its \<open>finally\<close>
  waiting for \<open>Promise.all([producer, consumer])\<close>, or has returned. By the event
  queue's contract a consumer sees the end of a queue when the queue is empty and
  cancelled. The agent stage hands its events to the synthesis producer over the list
  \<open>agent_out\<close>: the generator computes them on demand, which changes when they are
  computed and not what they are. \<open>flushed\<close> lists the events the flush task has taken
  from the pipeline, each sent to the socket if there is one.
\<close>

text \<open>
  Modelled from the spec: the recognizer \<open>AssemblyAISTT\<close> and the synthesizer
  \<open>CartesiaTTS\<close> are not among the sources. By section 6 of the specification each takes
  input through a send operation, has a \<open>close\<close>, and yields its events until it signals
  completion after \<open>close\<close>: here each has a list of events it will yield, and its event
  sequence ends once the list is empty and \<open>close\<close> was called. The session follows the
  runs in which the vendors' \<open>sendAudio\<close>, \<open>sendText\<close> and \<open>close\<close> resolve: the
  synthesis producer's step is \<open>None\<close> where \<open>sendText\<close> rejects.
\<close>

datatype task = Running | Finished

datatype generator = Yielding | Finalizing | Returned

record session =
  inputStream :: "byte list writableIterator"
  stt_audio :: "byte list list"
  stt_closed :: nat
  stt_events :: "VoiceAgentEvent list"
  stt_producer :: task
  stt_consumer :: task
  stt_passthrough :: "VoiceAgentEvent writableIterator"
  stt_stage :: generator
  agent_stage :: generator
  agent_world :: world
  agent_out :: "VoiceAgentEvent list"
  tts_state :: producer_state
  tts_closed :: nat
  tts_events :: "VoiceAgentEvent list"
  tts_producer :: task
  tts_consumer :: task
  tts_passthrough :: "VoiceAgentEvent writableIterator"
  tts_stage :: generator
  flushed :: "VoiceAgentEvent list"
  flushPromise :: task

definition new_queue :: "'a writableIterator" where
  "new_queue = \<lparr>queued = [], cancelled = False\<rparr>"

definition new_session :: "env \<Rightarrow> world \<Rightarrow> synthesizer \<Rightarrow> VoiceAgentEvent list \<Rightarrow> session" where
  "new_session e w syn transcripts =
     \<lparr>inputStream = new_queue,
      stt_audio = [], stt_closed = 0, stt_events = transcripts,
      stt_producer = Running, stt_consumer = Running,
      stt_passthrough = new_queue, stt_stage = Yielding,
      agent_stage = Yielding, agent_world = snd (uuidv4 e w), agent_out = [],
      tts_state = producer_init, tts_closed = 0, tts_events = receiveEvents syn,
      tts_producer = Running, tts_consumer = Running,
      tts_passthrough = new_queue, tts_stage = Yielding,
      flushed = [], flushPromise = Running\<rparr>"

datatype actor =
    Client_frame FrameData
  | Client_close
  | Stt_producer
  | Stt_consumer
  | Stt_stage
  | Agent_stage
  | Tts_producer
  | Tts_consumer
  | Tts_stage
  | Flush

fun step :: "env \<Rightarrow> synthesizer \<Rightarrow> session \<Rightarrow> actor \<Rightarrow> session option" where
  "step e syn s (Client_frame d) = Some (s\<lparr>inputStream := onMessage (inputStream s) d\<rparr>)"
| "step e syn s Client_close = Some (s\<lparr>inputStream := cancel (inputStream s)\<rparr>)"
| "step e syn s Stt_producer =
     (if stt_producer s \<noteq> Running then None
      else case queued (inputStream s) of
             audioChunk # chunks \<Rightarrow>
               Some (s\<lparr>inputStream := (inputStream s)\<lparr>queued := chunks\<rparr>,
                       stt_audio := stt_audio s @ [audioChunk]\<rparr>)
           | [] \<Rightarrow>
               if cancelled (inputStream s)
               then Some (s\<lparr>stt_closed := Suc (stt_closed s), stt_producer := Finished\<rparr>)
               else None)"
| "step e syn s Stt_consumer =
     (if stt_consumer s \<noteq> Running then None
      else case stt_events s of
             event # events \<Rightarrow>
               Some (s\<lparr>stt_events := events, stt_passthrough := push (stt_passthrough s) event\<rparr>)
           | [] \<Rightarrow> if 0 < stt_closed s then Some (s\<lparr>stt_consumer := Finished\<rparr>) else None)"
| "step e syn s Stt_stage =
     (case stt_stage s of
        Yielding \<Rightarrow>
          if queued (stt_passthrough s) = [] \<and> cancelled (stt_passthrough s)
          then Some (s\<lparr>stt_stage := Finalizing\<rparr>) else None
      | Finalizing \<Rightarrow>
          if stt_producer s = Finished \<and> stt_consumer s = Finished
          then Some (s\<lparr>stt_stage := Returned\<rparr>) else None
      | Returned \<Rightarrow> None)"
| "step e syn s Agent_stage =
     (if agent_stage s \<noteq> Yielding then None
      else case stt_stage s of
             Returned \<Rightarrow> Some (s\<lparr>agent_stage := Returned\<rparr>)
           | Finalizing \<Rightarrow> None
           | Yielding \<Rightarrow>
               (case queued (stt_passthrough s) of
                  [] \<Rightarrow> None
                | event # events \<Rightarrow>
                    (let (out, w) = agent_loop e (agent_world s) [event]
                     in Some (s\<lparr>stt_passthrough := (stt_passthrough s)\<lparr>queued := events\<rparr>,
                               agent_world := w, agent_out := agent_out s @ out\<rparr>))))"
| "step e syn s Tts_producer =
     (if tts_producer s \<noteq> Running then None
      else case agent_out s of
             event # events \<Rightarrow>
               (case producer_body syn (tts_state s) event of
                  (p, False) \<Rightarrow>
                    Some (s\<lparr>agent_out := events, tts_state := p,
                            tts_passthrough := push (tts_passthrough s) event\<rparr>)
                | (p, True) \<Rightarrow> None)
           | [] \<Rightarrow>
               if agent_stage s = Returned
               then Some (s\<lparr>tts_closed := Suc (tts_closed s), tts_producer := Finished\<rparr>)
               else None)"
| "step e syn s Tts_consumer =
     (if tts_consumer s \<noteq> Running then None
      else case tts_events s of
             event # events \<Rightarrow>
               Some (s\<lparr>tts_events := events, tts_passthrough := push (tts_passthrough s) event\<rparr>)
           | [] \<Rightarrow> if 0 < tts_closed s then Some (s\<lparr>tts_consumer := Finished\<rparr>) else None)"
| "step e syn s Tts_stage =
     (case tts_stage s of
        Yielding \<Rightarrow>
          if queued (tts_passthrough s) = [] \<and> cancelled (tts_passthrough s)
          then Some (s\<lparr>tts_stage := Finalizing\<rparr>) else None
      | Finalizing \<Rightarrow>
          if tts_producer s = Finished \<and> tts_consumer s = Finished
          then Some (s\<lparr>tts_stage := Returned\<rparr>) else None
      | Returned \<Rightarrow> None)"
| "step e syn s Flush =
     (if flushPromise s \<noteq> Running then None
      else case tts_stage s of
             Returned \<Rightarrow> Some (s\<lparr>flushPromise := Finished\<rparr>)
           | Finalizing \<Rightarrow> None
           | Yielding \<Rightarrow>
               (case queued (tts_passthrough s) of
                  [] \<Rightarrow> None
                | event # events \<Rightarrow>
                    Some (s\<lparr>tts_passthrough := (tts_passthrough s)\<lparr>queued := events\<rparr>,
                            flushed := flushed s @ [event]\<rparr>)))"

fun run :: "env \<Rightarrow> synthesizer \<Rightarrow> session \<Rightarrow> actor list \<Rightarrow> session option" where
  "run e syn s [] = Some s"
| "run e syn s (a # as) = (case step e syn s a of None \<Rightarrow> None | Some s' \<Rightarrow> run e syn s' as)"

definition undrained :: "session \<Rightarrow> bool" where
  \<comment> \<open>What every step keeps: the two passthrough queues are not cancelled, no generator has
      left its loop, the synthesis tasks run, and the recognizer is closed once the
      transcription producer has finished.\<close>
  "undrained s \<longleftrightarrow>
     \<not> cancelled (stt_passthrough s) \<and> \<not> cancelled (tts_passthrough s)
     \<and> stt_stage s = Yielding \<and> agent_stage s = Yielding \<and> tts_stage s = Yielding
     \<and> tts_producer s = Running \<and> tts_consumer s = Running \<and> tts_closed s = 0
     \<and> flushPromise s = Running
     \<and> stt_closed s = (if stt_producer s = Finished then 1 else 0)"

definition example_schedule :: "actor list" where
  \<comment> \<open>A binary frame and a text frame arrive, the greeting "hello" is transcribed, answered
      and sent to the socket with one audio chunk, and the client closes the socket; then the
      transcription stage's two tasks finish.\<close>
  "example_schedule =
     [Client_frame (ArrayBufferData [1, 2]), Client_frame (StringData ''hi''),
      Stt_producer, Stt_consumer, Agent_stage, Tts_producer, Tts_producer, Tts_producer,
      Tts_consumer, Flush, Flush, Flush, Flush, Client_close, Stt_producer, Stt_consumer]"

definition internal_actors :: "actor list" where
  "internal_actors =
     [Stt_producer, Stt_consumer, Stt_stage, Agent_stage, Tts_producer, Tts_consumer, Tts_stage, Flush]"

section \<open>Properties of the order tools\<close>

lemma findIndex_neg_iff: "findIndex P xs \<ge> 0 \<longleftrightarrow> (\<exists>x \<in> set xs. P x)"
  by (induction xs) (auto simp: Let_def)

lemma findIndex_split:
  "findIndex P xs \<ge> 0 \<Longrightarrow>
     \<exists>pre l post. xs = pre @ l # post \<and> (\<forall>p \<in> set pre. \<not> P p) \<and> P l
        \<and> nat (findIndex P xs) = length pre"
proof (induction xs)
  case Nil
  then show ?case by simp
next
  case (Cons x xs)
  show ?case
  proof (cases "P x")
    case True
    then have "x # xs = [] @ x # xs \<and> (\<forall>p \<in> set []. \<not> P p) \<and> P x
        \<and> nat (findIndex P (x # xs)) = length ([] :: 'a list)"
      by simp
    then show ?thesis by blast
  next
    case False
    with Cons.prems have ge: "findIndex P xs \<ge> 0"
      by (simp add: Let_def split: if_splits)
    from Cons.IH [OF ge] obtain pre l post where
      h: "xs = pre @ l # post" "\<forall>p \<in> set pre. \<not> P p" "P l" "nat (findIndex P xs) = length pre"
      by blast
    from False ge h have "x # xs = (x # pre) @ l # post \<and> (\<forall>p \<in> set (x # pre). \<not> P p) \<and> P l
        \<and> nat (findIndex P (x # xs)) = length (x # pre)"
      by (simp add: Let_def nat_add_distrib)
    then show ?thesis by blast
  qed
qed



lemma removeFromOrder_lines:
  "order_lines (snd (removeFromOrder it customerId st)) (customer_key customerId) =
     (let old = order_lines st (customer_key customerId);
          k = findIndex (same_item it) old
      in if k \<ge> 0 then splice1 (nat k) old else old)"
  by (cases "st (customer_key customerId)")
     (simp_all add: removeFromOrder_def order_lines_def Let_def)

lemma removeFromOrder_others:
  "c \<noteq> customer_key customerId \<Longrightarrow> snd (removeFromOrder it customerId st) c = st c"
  by (cases "st (customer_key customerId)") (simp_all add: removeFromOrder_def Let_def)

lemma removeFromOrder_no_match:
  "findIndex (same_item it) (order_lines st (customer_key customerId)) < 0 \<Longrightarrow>
     snd (removeFromOrder it customerId st) = st"
  by (cases "st (customer_key customerId)")
     (simp_all add: removeFromOrder_def order_lines_def Let_def)





text \<open>
  C10. A call of \<open>remove_from_order\<close>: when the customer's order has a line whose item
  equals the given item up to case (the size is not looked at), the first such line is
  removed and the other lines keep their content and order; when the order is absent or
  empty or has no such line, the whole store is unchanged. The orders of the other
  customers are unchanged in both cases.
\<close>

theorem removeFromOrder_removes_first:
  fixes it :: string and customerId :: "string option" and st :: orderState
  defines "cid \<equiv> customer_key customerId"
  defines "old \<equiv> order_lines st cid"
  defines "st' \<equiv> snd (removeFromOrder it customerId st)"
  shows "(if \<exists>l \<in> set old. toLowerCase (item l) = toLowerCase it
          then \<exists>pre l post. old = pre @ l # post
                 \<and> (\<forall>p \<in> set pre. toLowerCase (item p) \<noteq> toLowerCase it)
                 \<and> toLowerCase (item l) = toLowerCase it
                 \<and> order_lines st' cid = pre @ post
          else st' = st)
         \<and> (\<forall>c. c \<noteq> cid \<longrightarrow> st' c = st c)"
proof -
  let ?P = "same_item it"
  have others: "\<forall>c. c \<noteq> cid \<longrightarrow> st' c = st c"
    unfolding cid_def st'_def by (simp add: removeFromOrder_others)
  have ex: "(\<exists>l \<in> set old. toLowerCase (item l) = toLowerCase it) \<longleftrightarrow> findIndex ?P old \<ge> 0"
    by (simp add: findIndex_neg_iff same_item_def)
  show ?thesis
  proof (cases "findIndex ?P old \<ge> 0")
    case True
    from findIndex_split [OF True] obtain pre l post where
      h: "old = pre @ l # post" "\<forall>p \<in> set pre. \<not> ?P p" "?P l"
         "nat (findIndex ?P old) = length pre"
      by blast
    have "order_lines st' cid = splice1 (length pre) old"
      using True h(4) unfolding st'_def cid_def old_def
      by (simp add: removeFromOrder_lines Let_def)
    also have "\<dots> = pre @ post"
      by (simp add: h(1) splice1_def)
    finally have "order_lines st' cid = pre @ post" .
    with h have "\<exists>pre l post. old = pre @ l # post
                 \<and> (\<forall>p \<in> set pre. toLowerCase (item p) \<noteq> toLowerCase it)
                 \<and> toLowerCase (item l) = toLowerCase it
                 \<and> order_lines st' cid = pre @ post"
      unfolding same_item_def by blast
    moreover from True ex have "\<exists>l \<in> set old. toLowerCase (item l) = toLowerCase it"
      by blast
    ultimately show ?thesis using others by (simp only: if_True simp_thms)
  next
    case False
    then have "st' = st"
      unfolding st'_def old_def cid_def by (simp add: removeFromOrder_no_match)
    moreover from False ex have "\<not> (\<exists>l \<in> set old. toLowerCase (item l) = toLowerCase it)"
      by blast
    ultimately show ?thesis using others by (simp only: if_False simp_thms)
  qed
qed

theorem removeFromOrder_removes_first_witness:
  "(\<exists>l \<in> set (order_lines example_orders ''default''). toLowerCase (item l) = toLowerCase ''Blt'')
   \<and> order_lines (snd (removeFromOrder ''Blt'' None example_orders)) ''default''
       = [\<lparr>item = ''chips'', quantity = 1, item_size = None\<rparr>,
          \<lparr>item = ''blt'', quantity = 4, item_size = Some ''small''\<rparr>]
   \<and> order_lines (snd (removeFromOrder ''cookie'' None example_orders)) ''default''
       = order_lines example_orders ''default''"
proof -
  have a: "\<exists>l \<in> set (order_lines example_orders ''default'').
      toLowerCase (item l) = toLowerCase ''Blt''"
    by code_simp
  have b: "order_lines (snd (removeFromOrder ''Blt'' None example_orders)) ''default''
       = [\<lparr>item = ''chips'', quantity = 1, item_size = None\<rparr>,
          \<lparr>item = ''blt'', quantity = 4, item_size = Some ''small''\<rparr>]"
    by code_simp
  have c: "order_lines (snd (removeFromOrder ''cookie'' None example_orders)) ''default''
       = order_lines example_orders ''default''"
    by code_simp
  show ?thesis
    using a b c
      removeFromOrder_removes_first [where customerId = None and st = example_orders
        and it = "''Blt''"]
    by simp
qed

section \<open>Properties of the greeting pattern\<close>

lemma word_Cons: "word (c # w) = Cat (Lit c) (word w)" and word_Nil: "word [] = Empty"
  by (simp_all add: word_def)

lemma rmatch_word:
  "rmatch (word w) s =
     (if length w \<le> length s \<and> same_letters (take (length w) s) w then [drop (length w) s] else [])"
proof (induction w arbitrary: s)
  case Nil
  then show ?case by (simp add: word_Nil same_letters_def)
next
  case (Cons c w)
  show ?case
  proof (cases s)
    case Nil
    then show ?thesis by (simp add: word_Cons)
  next
    case (Cons x xs)
    then show ?thesis using Cons.IH [of xs]
      by (auto simp: word_Cons same_letters_def)
  qed
qed

lemma opt_dot:
  "[] \<in> set (rmatch (Opt (Lit d)) r) \<longleftrightarrow> r = [] \<or> (\<exists>x. r = [x] \<and> canonicalize x = canonicalize d)"
  by (cases r) (auto split: if_splits)

lemma word_then_opt:
  "[] \<in> set (concat (map (rmatch (Opt (Lit d))) (rmatch (word g) s)))
     \<longleftrightarrow> same_letters s g \<or> same_letters s (g @ [d])"
proof -
  let ?n = "length g"
  have split: "s = take ?n s @ drop ?n s" by simp
  show ?thesis
  proof (cases "length g \<le> length s \<and> same_letters (take ?n s) g")
    case True
    then have l: "[] \<in> set (concat (map (rmatch (Opt (Lit d))) (rmatch (word g) s)))
        \<longleftrightarrow> drop ?n s = [] \<or> (\<exists>x. drop ?n s = [x] \<and> canonicalize x = canonicalize d)"
      by (simp add: rmatch_word opt_dot del: rmatch.simps)
    have r1: "same_letters s g \<longleftrightarrow> drop ?n s = []"
    proof
      assume "same_letters s g"
      then have "length s = length g" unfolding same_letters_def by (metis length_map)
      then show "drop ?n s = []" by simp
    next
      assume "drop ?n s = []"
      with True show "same_letters s g" by (simp add: same_letters_def)
    qed
    have r2: "same_letters s (g @ [d]) \<longleftrightarrow> (\<exists>x. drop ?n s = [x] \<and> canonicalize x = canonicalize d)"
    proof
      assume a: "same_letters s (g @ [d])"
      then have len: "length s = Suc (length g)" unfolding same_letters_def by (metis length_map length_append_singleton)
      then have "length (drop ?n s) = 1" by simp
      then obtain x where x: "drop ?n s = [x]"
        by (cases "drop ?n s") auto
      from a have "map canonicalize (take ?n s @ drop ?n s) = map canonicalize g @ [canonicalize d]"
        unfolding same_letters_def by simp
      with x True have "canonicalize x = canonicalize d"
        by (simp add: same_letters_def)
      with x show "\<exists>x. drop ?n s = [x] \<and> canonicalize x = canonicalize d" by blast
    next
      assume "\<exists>x. drop ?n s = [x] \<and> canonicalize x = canonicalize d"
      then obtain x where x: "drop ?n s = [x]" "canonicalize x = canonicalize d" by blast
      have "map canonicalize s = map canonicalize (take ?n s) @ map canonicalize (drop ?n s)"
        by (metis append_take_drop_id map_append)
      with x True show "same_letters s (g @ [d])" by (simp add: same_letters_def)
    qed
    from l r1 r2 show ?thesis by blast
  next
    case False
    then have l: "[] \<notin> set (concat (map (rmatch (Opt (Lit d))) (rmatch (word g) s)))"
      by (auto simp: rmatch_word simp del: rmatch.simps)
    have n1: "\<not> same_letters s g"
    proof
      assume a: "same_letters s g"
      then have "length s = length g" unfolding same_letters_def by (metis length_map)
      with a False show False by simp
    qed
    have n2: "\<not> same_letters s (g @ [d])"
    proof
      assume a: "same_letters s (g @ [d])"
      then have len: "length s = Suc (length g)" unfolding same_letters_def by (metis length_map length_append_singleton)
      from a have "take ?n (map canonicalize s) = take ?n (map canonicalize (g @ [d]))"
        unfolding same_letters_def by simp
      then have "map canonicalize (take ?n s) = map canonicalize g"
        by (simp add: take_map)
      with len False show False by (simp add: same_letters_def)
    qed
    from l n1 n2 show ?thesis by blast
  qed
qed

lemma greeting_test_iff: "test_anchored greetingPattern s \<longleftrightarrow> is_greeting s"
  unfolding test_anchored_def greetingPattern_def is_greeting_def greetings_def
  using word_then_opt [of "CHR ''.''" _ s]
  by (simp del: rmatch.simps add: rmatch.simps(3,4))

section \<open>Properties of the agent stage\<close>




lemma turn_greeting:
  "test_anchored greetingPattern (trim transcript) \<Longrightarrow>
   turn e w transcript =
     ([Agent_chunk GREETING (now e (clock_reads w)), Agent_end (now e (Suc (clock_reads w)))],
      w\<lparr>clock_reads := Suc (Suc (clock_reads w))\<rparr>)"
  by (simp add: turn_def Date_now_def)




lemma tool_call_events_calls: "agent_calls (snd (tool_call_events e w tcs)) = agent_calls w"
  by (induction tcs arbitrary: w)
     (auto simp: split_beta Let_def Date_now_def uuidv4_def split: option.splits)

lemma message_events_calls: "agent_calls (snd (message_events e w m)) = agent_calls w"
  by (cases m) (auto simp: split_beta Let_def Date_now_def tool_call_events_calls split: option.splits)

lemma stream_events_calls: "agent_calls (snd (stream_events e w ms)) = agent_calls w"
  by (induction ms arbitrary: w) (auto simp: split_beta Let_def message_events_calls)

lemma turn_calls:
  "\<not> test_anchored greetingPattern (trim transcript) \<Longrightarrow>
   agent_calls (snd (turn e w transcript)) =
     agent_calls w @ [\<lparr>messages = [transcript], streamMode = ''messages'', thread_id = None\<rparr>]"
  by (auto simp: turn_def split_beta Let_def Date_now_def stream_events_calls
           split: AgentReply.splits StreamEnd.splits)

lemma paired_from_append:
  "paired_from seen (xs @ ys) \<longleftrightarrow> paired_from seen xs \<and> paired_from (seen @ call_ids xs) ys"
proof (induction xs arbitrary: seen)
  case Nil
  then show ?case by simp
next
  case (Cons x xs)
  then show ?case by (cases x) auto
qed

lemma tool_call_events_ids:
  "list_all (\<lambda>tc. tc_id tc \<noteq> None) tcs \<Longrightarrow>
     paired_from seen (fst (tool_call_events e w tcs)) \<and>
     call_ids (fst (tool_call_events e w tcs)) = map (\<lambda>tc. the (tc_id tc)) tcs"
  by (induction tcs arbitrary: w seen) (auto simp: split_beta Let_def)

lemma stream_events_paired:
  "stream_paired_from seen ms \<Longrightarrow> paired_from seen (fst (stream_events e w ms))"
proof (induction seen ms arbitrary: w rule: stream_paired_from.induct)
  case (3 seen uu tcs ms)
  then show ?case
    by (auto simp: split_beta Let_def paired_from_append tool_call_events_ids Date_now_def)
qed (auto simp: split_beta Let_def paired_from_append Date_now_def)


section \<open>Properties of the synthesis stage\<close>















section \<open>Properties of the session\<close>

lemma step_undrained: "undrained s \<Longrightarrow> step e syn s a = Some s' \<Longrightarrow> undrained s'"
  by (cases a)
     (auto simp: undrained_def push_def cancel_def split_beta Let_def
           split: if_splits list.splits generator.splits prod.splits bool.splits)

lemma run_undrained: "undrained s \<Longrightarrow> run e syn s as = Some s' \<Longrightarrow> undrained s'"
  by (induction as arbitrary: s) (auto split: option.splits dest: step_undrained)

lemma new_session_undrained: "undrained (new_session e w syn transcripts)"
  by (simp add: undrained_def new_session_def new_queue_def)

section \<open>The claims about the pipeline\<close>








text \<open>
  C4. The request the agent stage sends for the transcript "what sandwiches do you have"
  (not a greeting) has the transcript as its message and carries no thread identifier,
  whatever the session and its generated \<open>threadId\<close> are. The sibling stage
  \<open>AgentTransform\<close> sends the thread identifier with the same call.
\<close>

theorem agentStream_request_without_thread_id:
  "agent_calls (snd (agentStream e w [Stt_output ''what sandwiches do you have'' ts])) =
     agent_calls w @ [\<lparr>messages = [''what sandwiches do you have''], streamMode = ''messages'',
                      thread_id = None\<rparr>]"
proof -
  have "\<not> test_anchored greetingPattern (trim ''what sandwiches do you have'')"
    by code_simp
  then show ?thesis
    by (simp add: agentStream_def split_beta Let_def turn_calls uuidv4_def)
qed


lemma AgentTransform_sends_thread_id:
  "thread_id (AgentTransform_request threadId txt) = Some threadId"
  by (simp add: AgentTransform_request_def)

text \<open>
  C5, as stated, fails: when the agent omits the id of a tool call the stage generates one,
  and when it omits the call id of a tool message the stage writes the empty string, so
  the \<open>tool_result\<close> that follows carries an id that no \<open>tool_call\<close> of the turn has.
\<close>

theorem tool_results_unpaired_counterexample:
  "fst (turn forgetful_env example_world ''what sandwiches do you have'') =
     [Tool_call ''uuid-0'' ''get_menu_info'' ''{}'' 1000,
      Tool_result [] ''get_menu_info'' ''Our specialty sandwiches'' 1001,
      Agent_chunk ''We have the Classic BLT.'' 1002, Agent_end 1003]
   \<and> \<not> results_paired (fst (turn forgetful_env example_world ''what sandwiches do you have''))
   \<and> fst (turn forgetful_env later_world
          ''what sandwiches do you have'') =
     [Tool_call ''call_1'' ''get_menu_info'' ''{}'' 1000,
      Tool_result [] ''get_menu_info'' ''Our specialty sandwiches'' 1001, Agent_end 1002]
   \<and> \<not> results_paired
         (fst (turn forgetful_env later_world
            ''what sandwiches do you have''))"
  by code_simp

text \<open>
  C5, amended. When the stream the agent gives for the turn is itself paired (every tool
  call and every tool message carries its id, and the id of each tool message is the id of
  exactly one tool call before it in the stream), the events of the turn are paired: each
  \<open>tool_result\<close> carries the id of exactly one earlier \<open>tool_call\<close> of the turn.
\<close>

theorem tool_results_paired_when_stream_paired:
  assumes "reply_paired (agent_stream e (length (agent_calls w))
             \<lparr>messages = [transcript], streamMode = ''messages'', thread_id = None\<rparr>)"
  shows "results_paired (fst (turn e w transcript))"
proof (cases "test_anchored greetingPattern (trim transcript)")
  case True
  then show ?thesis by (simp add: turn_greeting results_paired_def)
next
  case False
  with assms show ?thesis
    by (auto simp: turn_def results_paired_def split_beta Let_def paired_from_append
          stream_events_paired Date_now_def split: AgentReply.splits StreamEnd.splits)
qed

theorem tool_results_paired_when_stream_paired_witness:
  "reply_paired (agent_stream example_env (length (agent_calls later_world))
      \<lparr>messages = [''what sandwiches do you have''], streamMode = ''messages'', thread_id = None\<rparr>)
   \<and> results_paired (fst (turn example_env later_world ''what sandwiches do you have''))
   \<and> fst (turn example_env later_world ''what sandwiches do you have'') =
       [Tool_call ''call_1'' ''get_menu_info'' ''{}'' 1000,
        Tool_result ''call_1'' ''get_menu_info'' ''Our specialty sandwiches'' 1001,
        Agent_chunk ''We have the Classic BLT.'' 1002, Agent_end 1003]"
proof -
  have a: "reply_paired (agent_stream example_env (length (agent_calls later_world))
      \<lparr>messages = [''what sandwiches do you have''], streamMode = ''messages'', thread_id = None\<rparr>)"
    by code_simp
  have b: "fst (turn example_env later_world ''what sandwiches do you have'') =
       [Tool_call ''call_1'' ''get_menu_info'' ''{}'' 1000,
        Tool_result ''call_1'' ''get_menu_info'' ''Our specialty sandwiches'' 1001,
        Agent_chunk ''We have the Classic BLT.'' 1002, Agent_end 1003]"
    by code_simp
  from tool_results_paired_when_stream_paired [OF a]
  show ?thesis using a b by simp
qed



text \<open>
  C6. In every state a session reaches, under every schedule, with any frames and with the
  socket closed or not: the three generators are still in their loops, the flush task that
  \<open>onClose\<close> awaits is still running, the synthesis producer is still running and
  \<open>tts.close()\<close> was not called; \<open>stt.close()\<close> was called once if the transcription
  producer has finished, and not before. Nothing cancels a stage's passthrough queue, so
  \<open>yield* passthrough\<close> does not end when the stage's tasks do.
\<close>

theorem session_never_drains:
  assumes "run e syn (new_session e w syn transcripts) schedule = Some s"
  shows "stt_stage s = Yielding \<and> agent_stage s = Yielding \<and> tts_stage s = Yielding
         \<and> flushPromise s = Running \<and> tts_producer s = Running \<and> tts_closed s = 0
         \<and> stt_closed s = (if stt_producer s = Finished then 1 else 0)"
proof -
  have "undrained s"
    using new_session_undrained assms by (rule run_undrained)
  then show ?thesis by (simp add: undrained_def)
qed

theorem session_never_drains_witness:
  "(case run example_env example_synthesizer
           (new_session example_env example_world example_synthesizer [Stt_output ''hello'' 1])
           example_schedule of
      None \<Rightarrow> False
    | Some s \<Rightarrow>
        cancelled (inputStream s) \<and> queued (inputStream s) = []
        \<and> stt_producer s = Finished \<and> stt_consumer s = Finished \<and> stt_closed s = 1
        \<and> stt_stage s = Yielding \<and> tts_closed s = 0 \<and> flushPromise s = Running
        \<and> length (flushed s) = 4
        \<and> list_all (\<lambda>a. step example_env example_synthesizer s a = None) internal_actors)"
proof -
  let ?r = "run example_env example_synthesizer
           (new_session example_env example_world example_synthesizer [Stt_output ''hello'' 1])
           example_schedule"
  have a: "case ?r of
      None \<Rightarrow> False
    | Some s \<Rightarrow>
        cancelled (inputStream s) \<and> queued (inputStream s) = []
        \<and> stt_producer s = Finished \<and> stt_consumer s = Finished \<and> stt_closed s = 1
        \<and> stt_stage s = Yielding \<and> tts_closed s = 0 \<and> flushPromise s = Running
        \<and> length (flushed s) = 4
        \<and> list_all (\<lambda>a. step example_env example_synthesizer s a = None) internal_actors"
    by code_simp
  then obtain s where s: "?r = Some s" by (cases ?r) auto
  note session_never_drains [OF s]
  with a s show ?thesis by simp
qed



text \<open>
  C8. Over any sequence of frames, the input channel receives the bytes of exactly the
  frames that are a \<open>Buffer\<close> or an \<open>ArrayBuffer\<close>, in order; a frame of another kind
  changes nothing, and the frames after it are handled as before.
\<close>

theorem onMessage_pushes_recognized_frames:
  "onMessage channel frame = (if recognized frame then push channel (frame_bytes frame) else channel)
   \<and> queued (foldl onMessage channel frames) =
       queued channel @ map frame_bytes (filter recognized frames)
   \<and> cancelled (foldl onMessage channel frames) = cancelled channel"
proof -
  have one: "onMessage q f = (if recognized f then push q (frame_bytes f) else q)"
    for q :: "byte list writableIterator" and f
    by (cases f) simp_all
  have many: "queued (foldl onMessage q fs) = queued q @ map frame_bytes (filter recognized fs)
      \<and> cancelled (foldl onMessage q fs) = cancelled q"
    for q :: "byte list writableIterator" and fs
    by (induction fs arbitrary: q) (simp_all add: one push_def)
  from one many show ?thesis by blast
qed

end
